theory Spec2Isabelle
  imports Main "HOL-Library.AList" "HOL-Library.Multiset"
begin

section \<open>Data model\<close>

text \<open>
  A session is a plain JavaScript object that is written to disk as JSON and parsed back.
  Objects are modelled as partial maps from field names to JSON values, so that the object
  spread \<^verbatim>\<open>{...session, ...updates}\<close> is map override, a field holding \<^verbatim>\<open>null\<close> is
  different from a field that is absent, and an absent field reads as \<^verbatim>\<open>undefined\<close>
  (\<open>None\<close>).

  An ISO-8601 string produced by \<^verbatim>\<open>new Date().toISOString()\<close> is represented by the
  instant it denotes, in milliseconds since the epoch (\<open>JTime\<close>): the rendering has
  millisecond resolution and \<^verbatim>\<open>new Date(s)\<close> reads the same instant back.
\<close>

record audio_file =
  filename :: string
  originalName :: string
  path :: string
  fsize :: nat
  mimetype :: string
  uploadedAt :: int

datatype jsval = JNull | JStr string | JTime int | JFiles "audio_file list"

type_synonym obj = "string \<rightharpoonup> jsval"

text \<open>
  What a run leaves behind besides the files: every successful \<^verbatim>\<open>updateSession\<close> call with
  the partial object it was given, and every call of a stage adapter, in program order.
\<close>

datatype stage = Transcriber | Reframer | Synthesizer

datatype event = Updated string obj | Called stage

text \<open>
  The world the services run in: the sessions directory (file name and parsed content of
  each file, in the order \<^verbatim>\<open>readdirSync\<close> lists them), the system clock as the sequence
  of its readings, the UUID generator as the sequence of its draws, and the journal.
\<close>

record world =
  files :: "(string \<times> obj) list"
  clock :: "nat \<Rightarrow> int"
  ticks :: nat
  uuids :: "nat \<Rightarrow> string"
  drawn :: nat
  journal :: "event list"

text \<open>
  An \<^verbatim>\<open>async\<close> function either resolves with a value or rejects with an \<^verbatim>\<open>Error\<close>; the
  error is represented by its \<^verbatim>\<open>message\<close>.
\<close>

type_synonym 'a io = "world \<Rightarrow> (string + 'a) \<times> world"

definition return_io :: "'a \<Rightarrow> 'a io" where
  "return_io x w = (Inr x, w)"

definition throw_io :: "string \<Rightarrow> 'a io" where
  "throw_io e w = (Inl e, w)"

definition bind_io :: "'a io \<Rightarrow> ('a \<Rightarrow> 'b io) \<Rightarrow> 'b io" where
  "bind_io m f w = (case m w of (Inl e, w') \<Rightarrow> (Inl e, w') | (Inr x, w') \<Rightarrow> f x w')"

definition catch_io :: "'a io \<Rightarrow> (string \<Rightarrow> 'a io) \<Rightarrow> 'a io" where
  "catch_io m h w = (case m w of (Inl e, w') \<Rightarrow> h e w' | (Inr x, w') \<Rightarrow> (Inr x, w'))"

section \<open>Session store (sessionService.js)\<close>

definition newDate :: "world \<Rightarrow> int \<times> world" where
  "newDate w = (clock w (ticks w), w\<lparr>ticks := Suc (ticks w)\<rparr>)"

definition uuidv4 :: "world \<Rightarrow> string \<times> world" where
  "uuidv4 w = (uuids w (drawn w), w\<lparr>drawn := Suc (drawn w)\<rparr>)"

text \<open>The file of a session inside the sessions directory.\<close>

definition getSessionPath :: "string \<Rightarrow> string" where
  "getSessionPath sessionId = sessionId @ ''.json''"

definition writeFileSync :: "string \<Rightarrow> obj \<Rightarrow> world \<Rightarrow> world" where
  "writeFileSync p content w = w\<lparr>files := AList.update p content (files w)\<rparr>"

definition createSession :: "string \<Rightarrow> world \<Rightarrow> obj \<times> world" where
  "createSession userId w =
     (let (sessionId, w1) = uuidv4 w;
          (now, w2) = newDate w1;
          session = [''id'' \<mapsto> JStr sessionId,
                     ''userId'' \<mapsto> JStr userId,
                     ''createdAt'' \<mapsto> JTime now,
                     ''status'' \<mapsto> JStr ''created'',
                     ''audioFiles'' \<mapsto> JFiles [],
                     ''transcript'' \<mapsto> JNull,
                     ''reframedText'' \<mapsto> JNull,
                     ''generatedAudioUrl'' \<mapsto> JNull,
                     ''error'' \<mapsto> JNull]
      in (session, writeFileSync (getSessionPath sessionId) session w2))"

text \<open>\<^verbatim>\<open>getSession\<close> returns \<^verbatim>\<open>null\<close> (\<open>None\<close>) when the file does not exist.\<close>

definition getSession :: "string \<Rightarrow> world \<Rightarrow> obj option" where
  "getSession sessionId w = map_of (files w) (getSessionPath sessionId)"

definition updateSession :: "string \<Rightarrow> obj \<Rightarrow> obj io" where
  "updateSession sessionId updates w =
     (case getSession sessionId w of
        None \<Rightarrow> (Inl ''Session not found'', w)
      | Some session \<Rightarrow>
          (let (now, w1) = newDate w;
               updatedSession = (session ++ updates)(''updatedAt'' \<mapsto> JTime now);
               w2 = writeFileSync (getSessionPath sessionId) updatedSession w1
           in (Inr updatedSession, w2\<lparr>journal := journal w2 @ [Updated sessionId updates]\<rparr>)))"

text \<open>
  \<^verbatim>\<open>new Date(v)\<close> read as a number: the instant of a timestamp string, and \<open>None\<close> for
  \<^verbatim>\<open>NaN\<close> (an absent field, or a value that is no date). \<^verbatim>\<open>new Date(null)\<close> is the epoch.
\<close>

definition dateValue :: "jsval option \<Rightarrow> int option" where
  "dateValue v = (case v of Some (JTime t) \<Rightarrow> Some t | Some JNull \<Rightarrow> Some 0 | _ \<Rightarrow> None)"

text \<open>The comparator \<^verbatim>\<open>(a, b) => new Date(b.createdAt) - new Date(a.createdAt)\<close>.\<close>

definition compareCreated :: "obj \<Rightarrow> obj \<Rightarrow> int option" where
  "compareCreated a b =
     (case (dateValue (b ''createdAt''), dateValue (a ''createdAt'')) of
        (Some tb, Some ta) \<Rightarrow> Some (tb - ta)
      | _ \<Rightarrow> None)"

text \<open>
  \<^verbatim>\<open>Array.prototype.sort\<close> is a stable sort: an element goes before another one only
  when the comparator is positive for the pair in their current order; a comparator value
  of \<^verbatim>\<open>NaN\<close> counts as zero.
\<close>

fun insert_sorted :: "('a \<Rightarrow> 'a \<Rightarrow> int option) \<Rightarrow> 'a \<Rightarrow> 'a list \<Rightarrow> 'a list" where
  "insert_sorted cmp x [] = [x]"
| "insert_sorted cmp x (y # ys) =
     (if (case cmp x y of Some v \<Rightarrow> v \<le> 0 | None \<Rightarrow> True) then x # y # ys
      else y # insert_sorted cmp x ys)"

definition array_sort :: "('a \<Rightarrow> 'a \<Rightarrow> int option) \<Rightarrow> 'a list \<Rightarrow> 'a list" where
  "array_sort cmp xs = foldr (insert_sorted cmp) xs []"

definition endsWith :: "string \<Rightarrow> string \<Rightarrow> bool" where
  "endsWith s t = (length t \<le> length s \<and> drop (length s - length t) s = t)"

text \<open>
  The loop over the directory listing, pushing the sessions of the user. The sessions
  directory is created when the module is loaded, so the listing always exists; every
  \<^verbatim>\<open>.json\<close> file in it holds an object.
\<close>

fun collectSessions :: "string \<Rightarrow> (string \<times> obj) list \<Rightarrow> obj list \<Rightarrow> obj list" where
  "collectSessions userId [] sessions = sessions"
| "collectSessions userId ((file, session) # rest) sessions =
     (if endsWith file ''.json'' then
        (if session ''userId'' = Some (JStr userId)
         then collectSessions userId rest (sessions @ [session])
         else collectSessions userId rest sessions)
      else collectSessions userId rest sessions)"

definition getUserSessions :: "string \<Rightarrow> world \<Rightarrow> obj list" where
  "getUserSessions userId w = array_sort compareCreated (collectSessions userId (files w) [])"

section \<open>Pipeline orchestrator (processingService.js)\<close>

text \<open>
  The three stage adapters are imported functions; a run is parametrised by them, so that
  a stub can stand for each. An adapter resolves with a string (\<open>Inr\<close>) or rejects with
  an error message (\<open>Inl\<close>).
\<close>

record adapters =
  transcribeAudio :: "string \<Rightarrow> string + string"
  reframeText :: "string \<Rightarrow> string + string"
  generateAudio :: "string \<Rightarrow> string \<Rightarrow> jsval option \<Rightarrow> string + string"

definition call :: "stage \<Rightarrow> string + 'a \<Rightarrow> 'a io" where
  "call st outcome w = (outcome, w\<lparr>journal := journal w @ [Called st]\<rparr>)"

text \<open>
  The most recently uploaded audio file; \<open>None\<close> when \<^verbatim>\<open>audioFiles\<close> is missing,
  \<^verbatim>\<open>null\<close> or empty. The field is only ever written as an array (by \<^verbatim>\<open>createSession\<close>
  and by the upload route).
\<close>

definition lastAudioFile :: "obj \<Rightarrow> audio_file option" where
  "lastAudioFile session =
     (case session ''audioFiles'' of
        Some (JFiles fs) \<Rightarrow> (if length fs = 0 then None else Some (fs ! (length fs - 1)))
      | _ \<Rightarrow> None)"

definition processAudioPipeline :: "adapters \<Rightarrow> string \<Rightarrow> (string \<times> string \<times> jsval) io" where
  "processAudioPipeline A sessionId =
     catch_io
       (\<lambda>w. case getSession sessionId w of
          None \<Rightarrow> throw_io ''Session or audio files not found'' w
        | Some session \<Rightarrow>
           (case lastAudioFile session of
              None \<Rightarrow> throw_io ''Session or audio files not found'' w
            | Some audioFile \<Rightarrow>
               bind_io (updateSession sessionId [''status'' \<mapsto> JStr ''transcribing'']) (\<lambda>_.
               bind_io (call Transcriber (transcribeAudio A (path audioFile))) (\<lambda>transcript.
               bind_io (updateSession sessionId
                          [''transcript'' \<mapsto> JStr transcript, ''status'' \<mapsto> JStr ''transcribed'']) (\<lambda>_.
               bind_io (updateSession sessionId [''status'' \<mapsto> JStr ''reframing'']) (\<lambda>_.
               bind_io (call Reframer (reframeText A transcript)) (\<lambda>reframedText.
               bind_io (updateSession sessionId
                          [''reframedText'' \<mapsto> JStr reframedText, ''status'' \<mapsto> JStr ''reframed'']) (\<lambda>_.
               bind_io
                 (catch_io
                    (bind_io (updateSession sessionId [''status'' \<mapsto> JStr ''generating_audio'']) (\<lambda>_.
                     bind_io (call Synthesizer
                                (generateAudio A reframedText sessionId (session ''userId''))) (\<lambda>audioFilename.
                     return_io (JStr (''/uploads/'' @ audioFilename)))))
                    (\<lambda>ttsError.
                     bind_io (updateSession sessionId
                                [''error'' \<mapsto> JStr (''TTS unavailable: '' @ ttsError
                                                     @ ''. Transcript and reframe are ready.'')]) (\<lambda>_.
                     return_io JNull)))
                 (\<lambda>generatedAudioUrl.
               bind_io (updateSession sessionId
                          [''generatedAudioUrl'' \<mapsto> generatedAudioUrl, ''status'' \<mapsto> JStr ''completed'']) (\<lambda>_.
               return_io (transcript, reframedText, generatedAudioUrl))))))))) w))
       (\<lambda>error.
          bind_io (updateSession sessionId [''status'' \<mapsto> JStr ''error'', ''error'' \<mapsto> JStr error]) (\<lambda>_.
          throw_io error))"

section \<open>Upload and trigger routes (routes/sessions.js)\<close>

text \<open>
  The store effects of the two route handlers that bring a session to the orchestrator;
  the result is the HTTP status of the response. \<open>req_file\<close> is what the upload
  middleware hands over for the stored file.
\<close>

record req_file =
  file_filename :: string
  file_originalname :: string
  file_path :: string
  file_size :: nat
  file_mimetype :: string

definition uploadRoute :: "string \<Rightarrow> string \<Rightarrow> req_file option \<Rightarrow> world \<Rightarrow> nat \<times> world" where
  "uploadRoute sessionId userId reqFile w =
     (case reqFile of
        None \<Rightarrow> (400, w)
      | Some f \<Rightarrow>
         (case getSession sessionId w of
            None \<Rightarrow> (404, w)
          | Some session \<Rightarrow>
             if session ''userId'' \<noteq> Some (JStr userId) then (403, w)
             else
               (let audioFiles = (case session ''audioFiles'' of Some (JFiles fs) \<Rightarrow> fs | _ \<Rightarrow> []);
                    (now, w1) = newDate w;
                    audioFiles' = audioFiles @
                      [\<lparr>filename = file_filename f, originalName = file_originalname f,
                        path = file_path f, fsize = file_size f, mimetype = file_mimetype f,
                        uploadedAt = now\<rparr>]
                in (case updateSession sessionId
                           [''audioFiles'' \<mapsto> JFiles audioFiles', ''status'' \<mapsto> JStr ''audio_uploaded''] w1 of
                      (Inl e, w2) \<Rightarrow> (500, w2)
                    | (Inr _, w2) \<Rightarrow> (200, w2)))))"

text \<open>
  The trigger answers at once and the run goes on by itself; with no other writer on the
  session, the store ends as if the run had been carried out in place. A rejected run is
  caught once more by the route, which writes the error again.
\<close>

definition processRoute :: "adapters \<Rightarrow> string \<Rightarrow> string \<Rightarrow> world \<Rightarrow> nat \<times> world" where
  "processRoute A sessionId userId w =
     (case getSession sessionId w of
        None \<Rightarrow> (404, w)
      | Some session \<Rightarrow>
         if session ''userId'' \<noteq> Some (JStr userId) then (403, w)
         else if lastAudioFile session = None then (400, w)
         else
           (case updateSession sessionId [''status'' \<mapsto> JStr ''processing''] w of
              (Inl e, w1) \<Rightarrow> (500, w1)
            | (Inr _, w1) \<Rightarrow>
               (case processAudioPipeline A sessionId w1 of
                  (Inr _, w2) \<Rightarrow> (200, w2)
                | (Inl error, w2) \<Rightarrow>
                   (200, snd (updateSession sessionId
                                [''status'' \<mapsto> JStr ''error'', ''error'' \<mapsto> JStr error] w2)))))"

section \<open>Retry engine of the transcriber (speechToTextService.js)\<close>

text \<open>
  What the \<^verbatim>\<open>catch\<close> block reads from a thrown error; an absent property is \<open>None\<close>.
\<close>

record js_error =
  message :: "string option"
  code :: "string option"
  cause_code :: "string option"
  error_code :: "string option"
  response_status :: "int option"
  status :: "int option"

datatype attempt_result = Resolved string | Rejected js_error

datatype retry_event = Attempt nat | Wait nat

text \<open>\<^verbatim>\<open>a || b\<close> on strings and on numbers: the empty string and zero are falsy.\<close>

definition or_str :: "string option \<Rightarrow> string option \<Rightarrow> string option" where
  "or_str a b = (case a of Some s \<Rightarrow> (if s = [] then b else Some s) | None \<Rightarrow> b)"

definition or_num :: "int option \<Rightarrow> int option \<Rightarrow> int option" where
  "or_num a b = (case a of Some n \<Rightarrow> (if n = 0 then b else Some n) | None \<Rightarrow> b)"

fun str_includes :: "string \<Rightarrow> string \<Rightarrow> bool" where
  "str_includes [] t = (t = [])"
| "str_includes (c # cs) t = (take (length t) (c # cs) = t \<or> str_includes cs t)"

definition errorMessage :: "js_error \<Rightarrow> string" where
  "errorMessage error = (case or_str (message error) (Some ''Unknown error'') of
                           Some m \<Rightarrow> m | None \<Rightarrow> ''Unknown error'')"

definition errorCode :: "js_error \<Rightarrow> string option" where
  "errorCode error = or_str (or_str (code error) (cause_code error)) (error_code error)"

definition statusCode :: "js_error \<Rightarrow> int option" where
  "statusCode error = or_num (response_status error) (status error)"

definition isRateLimit :: "js_error \<Rightarrow> bool" where
  "isRateLimit error = (statusCode error = Some 429)"

definition isConnectionError :: "js_error \<Rightarrow> bool" where
  "isConnectionError error =
     (errorCode error = Some ''ECONNRESET'' \<or>
      errorCode error = Some ''ETIMEDOUT'' \<or>
      str_includes (errorMessage error) ''Connection'' \<or>
      str_includes (errorMessage error) ''socket hang up'' \<or>
      str_includes (errorMessage error) ''timeout'')"

definition maxRetries :: nat where
  "maxRetries = 3"

text \<open>
  The \<^verbatim>\<open>for\<close> loop of \<^verbatim>\<open>transcribeWithWhisper\<close>, from attempt \<open>attempt\<close> on.
  \<open>body k\<close> is the outcome of the \<open>k\<close>-th execution of the \<^verbatim>\<open>try\<close> block (opening the
  file and posting it); the second component of the result lists the attempts made and the
  waits between them, the waits in milliseconds.
\<close>

function whisperAttempts ::
  "(nat \<Rightarrow> attempt_result) \<Rightarrow> nat \<Rightarrow> js_error option \<Rightarrow> retry_event list
     \<Rightarrow> (string + string) \<times> retry_event list" where
  "whisperAttempts body attempt lastError tr =
     (if attempt \<le> maxRetries then
        (case body attempt of
           Resolved transcription \<Rightarrow> (Inr transcription, tr @ [Attempt attempt])
         | Rejected error \<Rightarrow>
            if attempt < maxRetries \<and> isRateLimit error then
              whisperAttempts body (attempt + 1) (Some error)
                (tr @ [Attempt attempt, Wait (min (attempt * 10000) 60000)])
            else if attempt < maxRetries \<and> isConnectionError error then
              whisperAttempts body (attempt + 1) (Some error)
                (tr @ [Attempt attempt, Wait (attempt * 3000)])
            else if attempt = maxRetries then
              (if isRateLimit error then
                 (Inl ''Transcription failed: Rate limit exceeded. Please try again in a few minutes.'',
                  tr @ [Attempt attempt])
               else
                 (Inl (''Transcription failed after 3 attempts: '' @ errorMessage error),
                  tr @ [Attempt attempt]))
            else (Inl (''Transcription failed: '' @ errorMessage error), tr @ [Attempt attempt]))
      else
        (Inl (''Transcription failed after 3 attempts: '' @
              (case lastError of Some e \<Rightarrow> errorMessage e | None \<Rightarrow> ''Unknown error'')), tr))"
  by pat_completeness auto
termination
  by (relation "measure (\<lambda>(body, attempt, lastError, tr). Suc maxRetries - attempt)") auto

declare whisperAttempts.simps [simp del]

text \<open>
  The configuration and the outside of \<^verbatim>\<open>transcribeWithWhisper\<close>: whether the API
  client was configured, what \<^verbatim>\<open>fs.statSync\<close> does on a path (\<open>Some\<close> message when it
  throws), and the outcomes of the \<^verbatim>\<open>try\<close> block on that path.
\<close>

record whisper_env =
  openaiClient :: bool
  statSync :: "string \<Rightarrow> string option"
  tryBody :: "string \<Rightarrow> nat \<Rightarrow> attempt_result"

definition transcribeWithWhisper ::
  "whisper_env \<Rightarrow> string \<Rightarrow> (string + string) \<times> retry_event list" where
  "transcribeWithWhisper env audioPath =
     (if \<not> openaiClient env then (Inl ''OpenAI API key not configured'', [])
      else (case statSync env audioPath of
              Some m \<Rightarrow> (Inl m, [])
            | None \<Rightarrow> whisperAttempts (tryBody env audioPath) 1 None []))"

section \<open>Notions used to state the properties\<close>

text \<open>
  One timestamp field is later than another when both read as dates and the first instant
  is greater, the comparison the listing itself makes with \<^verbatim>\<open>new Date\<close>.
\<close>

definition laterThan :: "jsval option \<Rightarrow> jsval option \<Rightarrow> bool" where
  "laterThan a b = (case (dateValue a, dateValue b) of (Some x, Some y) \<Rightarrow> y < x | _ \<Rightarrow> False)"

text \<open>The instant a session was created, for sessions that carry one.\<close>

definition createdAt :: "obj \<Rightarrow> int" where
  "createdAt session = (case session ''createdAt'' of Some (JTime t) \<Rightarrow> t | _ \<Rightarrow> 0)"

definition hasCreatedAt :: "obj \<Rightarrow> bool" where
  "hasCreatedAt session = (case session ''createdAt'' of Some (JTime t) \<Rightarrow> True | _ \<Rightarrow> False)"

text \<open>The events a run appended to the journal.\<close>

definition runEvents :: "world \<Rightarrow> world \<Rightarrow> event list" where
  "runEvents w w' = drop (length (journal w)) (journal w')"

text \<open>
  What an observer of one run sees: the status values written, and the adapter calls.
  An update that carries no status writes none.
\<close>

datatype mark = Wrote string | Invoked stage

fun marks :: "event list \<Rightarrow> mark list" where
  "marks [] = []"
| "marks (Updated sid u # es) =
     (case u ''status'' of Some (JStr st) \<Rightarrow> Wrote st # marks es | _ \<Rightarrow> marks es)"
| "marks (Called st # es) = Invoked st # marks es"

fun statusWrites :: "mark list \<Rightarrow> string list" where
  "statusWrites [] = []"
| "statusWrites (Wrote st # ms) = st # statusWrites ms"
| "statusWrites (Invoked st # ms) = statusWrites ms"

fun updatesOf :: "event list \<Rightarrow> obj list" where
  "updatesOf [] = []"
| "updatesOf (Updated sid u # es) = u # updatesOf es"
| "updatesOf (Called st # es) = updatesOf es"

text \<open>The order of the states of the state machine; \<open>0\<close> for any other string.\<close>

definition statusRank :: "string \<Rightarrow> nat" where
  "statusRank st =
     (if st = ''transcribing'' then 1 else if st = ''transcribed'' then 2
      else if st = ''reframing'' then 3 else if st = ''reframed'' then 4
      else if st = ''generating_audio'' then 5 else if st = ''completed'' then 6
      else if st = ''error'' then 7 else 0)"

fun entryStatus :: "stage \<Rightarrow> string" where
  "entryStatus Transcriber = ''transcribing''"
| "entryStatus Reframer = ''reframing''"
| "entryStatus Synthesizer = ''generating_audio''"

text \<open>\<open>adjacent a b xs\<close>: \<open>a\<close> occurs in \<open>xs\<close> with \<open>b\<close> right after it.\<close>

fun adjacent :: "'a \<Rightarrow> 'a \<Rightarrow> 'a list \<Rightarrow> bool" where
  "adjacent a b (x # y # zs) = ((x = a \<and> y = b) \<or> adjacent a b (y # zs))"
| "adjacent a b [x] = False"
| "adjacent a b [] = False"

fun attemptsMade :: "retry_event list \<Rightarrow> nat list" where
  "attemptsMade [] = []"
| "attemptsMade (Attempt k # es) = k # attemptsMade es"
| "attemptsMade (Wait ms # es) = attemptsMade es"

text \<open>
  The class of a failure, in the order in which the \<^verbatim>\<open>catch\<close> block tests it: the
  rate-limit test comes first, then the connection test.
\<close>

datatype failure_class = RateLimited | TransientConnection | OtherFailure

definition classify :: "js_error \<Rightarrow> failure_class" where
  "classify error =
     (if isRateLimit error then RateLimited
      else if isConnectionError error then TransientConnection
      else OtherFailure)"

section \<open>Concrete inputs\<close>

definition example_file :: audio_file where
  "example_file = \<lparr>filename = ''audio_1.m4a'', originalName = ''memo.m4a'',
                    path = ''uploads/s1/audio_1.m4a'', fsize = 2048,
                    mimetype = ''audio/m4a'', uploadedAt = 900\<rparr>"

definition example_upload :: req_file where
  "example_upload = \<lparr>file_filename = ''audio_1.m4a'', file_originalname = ''memo.m4a'',
                      file_path = ''uploads/s2/audio_1.m4a'', file_size = 2048,
                      file_mimetype = ''audio/m4a''\<rparr>"

definition example_session :: obj where
  "example_session =
     [''id'' \<mapsto> JStr ''s1'', ''userId'' \<mapsto> JStr ''u1'', ''createdAt'' \<mapsto> JTime 800,
      ''status'' \<mapsto> JStr ''processing'', ''audioFiles'' \<mapsto> JFiles [example_file],
      ''transcript'' \<mapsto> JNull, ''reframedText'' \<mapsto> JNull,
      ''generatedAudioUrl'' \<mapsto> JNull, ''error'' \<mapsto> JNull, ''updatedAt'' \<mapsto> JTime 1000]"

text \<open>A world whose clock still reads the millisecond of the session's last update.\<close>

definition example_world :: world where
  "example_world = \<lparr>files = [(''s1.json'', example_session)], clock = (\<lambda>k. 1000), ticks = 0,
                    uuids = (\<lambda>k. ''s2''), drawn = 0, journal = []\<rparr>"

text \<open>The same session after an earlier run that left an error message behind.\<close>

definition failed_before_world :: world where
  "failed_before_world =
     \<lparr>files = [(''s1.json'', example_session(''error'' \<mapsto> JStr ''Reframing failed: overloaded''))],
      clock = (\<lambda>k. 1000 + int k), ticks = 0, uuids = (\<lambda>k. ''s2''), drawn = 0, journal = []\<rparr>"

text \<open>A session as \<^verbatim>\<open>createSession\<close> writes it, with its id, owner and creation time.\<close>

definition fresh_session :: "string \<Rightarrow> string \<Rightarrow> int \<Rightarrow> obj" where
  "fresh_session sid uid t =
     [''id'' \<mapsto> JStr sid, ''userId'' \<mapsto> JStr uid, ''createdAt'' \<mapsto> JTime t,
      ''status'' \<mapsto> JStr ''created'', ''audioFiles'' \<mapsto> JFiles [], ''transcript'' \<mapsto> JNull,
      ''reframedText'' \<mapsto> JNull, ''generatedAudioUrl'' \<mapsto> JNull, ''error'' \<mapsto> JNull]"

definition listing_world :: world where
  "listing_world =
     \<lparr>files = [(''a.json'', fresh_session ''a'' ''u1'' 100),
               (''b.json'', fresh_session ''b'' ''u2'' 200),
               (''c.json'', fresh_session ''c'' ''u1'' 300)],
      clock = (\<lambda>k. 1000 + int k), ticks = 0, uuids = (\<lambda>k. ''d''), drawn = 0, journal = []\<rparr>"

definition stub_adapters :: adapters where
  "stub_adapters = \<lparr>transcribeAudio = (\<lambda>p. Inr ''hello''),
                     reframeText = (\<lambda>t. Inr ''HELLO''),
                     generateAudio = (\<lambda>t sid uid. Inr ''a1'')\<rparr>"

definition no_voice_adapters :: adapters where
  "no_voice_adapters = \<lparr>transcribeAudio = (\<lambda>p. Inr ''hello''),
                         reframeText = (\<lambda>t. Inr ''HELLO''),
                         generateAudio = (\<lambda>t sid uid. Inl ''ElevenLabs API key not configured'')\<rparr>"

definition no_stt_adapters :: adapters where
  "no_stt_adapters =
     \<lparr>transcribeAudio = (\<lambda>p. Inl ''Transcription failed: Rate limit exceeded. Please try again in a few minutes.''),
      reframeText = (\<lambda>t. Inr ''HELLO''),
      generateAudio = (\<lambda>t sid uid. Inr ''a1'')\<rparr>"

definition rate_limit_error :: js_error where
  "rate_limit_error = \<lparr>message = Some ''Request failed with status code 429'',
                        code = Some ''ERR_BAD_REQUEST'', cause_code = None, error_code = None,
                        response_status = Some 429, status = Some 429\<rparr>"

definition reset_error :: js_error where
  "reset_error = \<lparr>message = Some ''socket hang up'', code = Some ''ECONNRESET'',
                   cause_code = None, error_code = None,
                   response_status = None, status = None\<rparr>"

definition bad_request_error :: js_error where
  "bad_request_error = \<lparr>message = Some ''Request failed with status code 400'',
                         code = Some ''ERR_BAD_REQUEST'', cause_code = None, error_code = None,
                         response_status = Some 400, status = Some 400\<rparr>"

definition whisper_with :: "(nat \<Rightarrow> attempt_result) \<Rightarrow> whisper_env" where
  "whisper_with body = \<lparr>openaiClient = True, statSync = (\<lambda>p. None), tryBody = (\<lambda>p. body)\<rparr>"

definition limited_then_ok :: "nat \<Rightarrow> attempt_result" where
  "limited_then_ok k = (if k < 3 then Rejected rate_limit_error else Resolved ''hello'')"

definition always_limited :: "nat \<Rightarrow> attempt_result" where
  "always_limited k = Rejected rate_limit_error"

definition always_reset :: "nat \<Rightarrow> attempt_result" where
  "always_reset k = Rejected reset_error"

definition reset_then_bad :: "nat \<Rightarrow> attempt_result" where
  "reset_then_bad k = (if k < 2 then Rejected reset_error else Rejected bad_request_error)"

section \<open>Session store: facts\<close>

lemma updateSession_found:
  assumes "getSession sid w = Some s"
  shows "updateSession sid u w =
     (Inr ((s ++ u)(''updatedAt'' \<mapsto> JTime (clock w (ticks w)))),
      w\<lparr>ticks := Suc (ticks w),
        files := AList.update (getSessionPath sid)
                   ((s ++ u)(''updatedAt'' \<mapsto> JTime (clock w (ticks w)))) (files w),
        journal := journal w @ [Updated sid u]\<rparr>)"
  using assms by (simp add: updateSession_def newDate_def writeFileSync_def Let_def)

lemma updateSession_missing:
  "getSession sid w = None \<Longrightarrow> updateSession sid u w = (Inl ''Session not found'', w)"
  by (simp add: updateSession_def)

lemma getSession_stored:
  "getSession sid (w\<lparr>ticks := n, files := AList.update (getSessionPath sid') c fs, journal := j\<rparr>) =
     (if sid' = sid then Some c else map_of fs (getSessionPath sid))"
  by (simp add: getSession_def update_conv' getSessionPath_def)

lemma createSession_result:
  "createSession userId w =
     (fresh_session (uuids w (drawn w)) userId (clock w (ticks w)),
      w\<lparr>drawn := Suc (drawn w), ticks := Suc (ticks w),
        files := AList.update (getSessionPath (uuids w (drawn w)))
                   (fresh_session (uuids w (drawn w)) userId (clock w (ticks w))) (files w)\<rparr>)"
  by (simp add: createSession_def uuidv4_def newDate_def writeFileSync_def fresh_session_def Let_def)

section \<open>Properties of the session store\<close>



text \<open>
  Claim C6, as amended. On an existing session, \<^verbatim>\<open>updateSession\<close> followed by
  \<^verbatim>\<open>getSession\<close> returns the record it wrote: the stored record overridden by exactly the
  given fields (so status \<^verbatim>\<open>"x"\<close> for the update \<^verbatim>\<open>{status: "x"}\<close>), with
  \<^verbatim>\<open>updatedAt\<close> set to the clock reading of the update. The new \<^verbatim>\<open>updatedAt\<close> is later
  than the one before exactly when there was one before and the clock has advanced past
  it. On an id that does not exist the update fails with \<^verbatim>\<open>Session not found\<close> and
  changes nothing.
\<close>

theorem updateSession_merges:
  "case getSession sid w of
     None \<Rightarrow> updateSession sid updates w = (Inl ''Session not found'', w)
   | Some session \<Rightarrow>
      (\<exists>updated w'.
         updateSession sid updates w = (Inr updated, w')
         \<and> getSession sid w' = Some updated
         \<and> updated = (session ++ updates)(''updatedAt'' \<mapsto> JTime (clock w (ticks w)))
         \<and> (\<forall>field. field \<noteq> ''updatedAt'' \<longrightarrow>
               updated field = (case updates field of Some v \<Rightarrow> Some v | None \<Rightarrow> session field))
         \<and> (\<forall>x. updates ''status'' = Some (JStr x) \<longrightarrow> updated ''status'' = Some (JStr x))
         \<and> updated ''updatedAt'' = Some (JTime (clock w (ticks w)))
         \<and> (laterThan (updated ''updatedAt'') (session ''updatedAt'') \<longleftrightarrow>
              (\<exists>t. dateValue (session ''updatedAt'') = Some t \<and> t < clock w (ticks w))))"
proof (cases "getSession sid w")
  case None
  then show ?thesis by (simp add: updateSession_missing)
next
  case (Some session)
  define updated where
    "updated = (session ++ updates)(''updatedAt'' \<mapsto> JTime (clock w (ticks w)))"
  have merge: "updated field = (case updates field of Some v \<Rightarrow> Some v | None \<Rightarrow> session field)"
    if "field \<noteq> ''updatedAt''" for field
    using that by (simp add: updated_def map_add_def split: option.splits)
  have stamp: "updated ''updatedAt'' = Some (JTime (clock w (ticks w)))"
    by (simp add: updated_def)
  have later: "laterThan (updated ''updatedAt'') (session ''updatedAt'') \<longleftrightarrow>
       (\<exists>t. dateValue (session ''updatedAt'') = Some t \<and> t < clock w (ticks w))"
    by (simp add: stamp laterThan_def dateValue_def split: option.splits jsval.splits)
  have status: "updated ''status'' = Some (JStr x)" if "updates ''status'' = Some (JStr x)" for x
    using that merge [of "''status''"] by simp
  show ?thesis
    using merge stamp later status
    by (simp add: Some updateSession_found [OF Some] getSession_stored flip: updated_def)
qed

theorem updateSession_merges_witness:
  "fst (updateSession ''s1'' [''status'' \<mapsto> JStr ''x''] failed_before_world) =
     Inr ((example_session(''error'' \<mapsto> JStr ''Reframing failed: overloaded'')
            ++ [''status'' \<mapsto> JStr ''x''])(''updatedAt'' \<mapsto> JTime 1000))
   \<and> fst (updateSession ''s9'' [''status'' \<mapsto> JStr ''x''] failed_before_world) = Inl ''Session not found''"
  using updateSession_merges [where sid = "''s1''" and w = failed_before_world
        and updates = "[''status'' \<mapsto> JStr ''x'']"]
    updateSession_merges [where sid = "''s9''" and w = failed_before_world
        and updates = "[''status'' \<mapsto> JStr ''x'']"]
  by (auto simp: failed_before_world_def getSession_def getSessionPath_def)

text \<open>
  Claim C6 as stated fails: an update in the millisecond of the previous one leaves
  \<^verbatim>\<open>updatedAt\<close> equal to what it was, not strictly greater.
\<close>

theorem updateSession_same_millisecond_counterexample:
  "getSession ''s1'' example_world = Some example_session
   \<and> getSession ''s1'' (snd (updateSession ''s1'' [''status'' \<mapsto> JStr ''x''] example_world)) \<noteq> None
   \<and> the (getSession ''s1'' (snd (updateSession ''s1'' [''status'' \<mapsto> JStr ''x''] example_world)))
        ''status'' = Some (JStr ''x'')
   \<and> \<not> laterThan
        (the (getSession ''s1'' (snd (updateSession ''s1'' [''status'' \<mapsto> JStr ''x''] example_world)))
           ''updatedAt'')
        (example_session ''updatedAt'')"
proof -
  have found: "getSession ''s1'' example_world = Some example_session"
    by (simp add: getSession_def getSessionPath_def example_world_def)
  show ?thesis
    by (simp add: found updateSession_found [OF found] getSession_stored)
      (simp add: example_session_def example_world_def laterThan_def dateValue_def)
qed

text \<open>Facts about the listing of a user's sessions.\<close>

lemma collectSessions_filter:
  "collectSessions userId fs acc =
     acc @ map snd (filter (\<lambda>(file, session). endsWith file ''.json''
                               \<and> session ''userId'' = Some (JStr userId)) fs)"
  by (induction userId fs acc rule: collectSessions.induct) simp_all

lemma mset_insert_sorted: "mset (insert_sorted cmp x xs) = add_mset x (mset xs)"
  by (induction xs) auto

lemma mset_array_sort: "mset (array_sort cmp xs) = mset xs"
  by (induction xs) (auto simp: array_sort_def mset_insert_sorted)

lemma set_insert_sorted: "set (insert_sorted cmp x xs) = insert x (set xs)"
  by (induction xs) auto

lemma set_array_sort: "set (array_sort cmp xs) = set xs"
  by (induction xs) (auto simp: array_sort_def set_insert_sorted)

lemma compareCreated_dated:
  "hasCreatedAt a \<Longrightarrow> hasCreatedAt b \<Longrightarrow> compareCreated a b = Some (createdAt b - createdAt a)"
  by (auto simp: hasCreatedAt_def compareCreated_def createdAt_def dateValue_def
      split: option.splits jsval.splits)

lemma newest_first_insert:
  assumes "sorted_wrt (\<lambda>a b. createdAt b \<le> createdAt a) xs"
    and "hasCreatedAt x" and "\<forall>y \<in> set xs. hasCreatedAt y"
  shows "sorted_wrt (\<lambda>a b. createdAt b \<le> createdAt a) (insert_sorted compareCreated x xs)"
  using assms
proof (induction xs)
  case Nil
  then show ?case by simp
next
  case (Cons y ys)
  then show ?case
    by (auto simp: compareCreated_dated set_insert_sorted)
qed

lemma newest_first_array_sort:
  "\<forall>y \<in> set xs. hasCreatedAt y \<Longrightarrow>
     sorted_wrt (\<lambda>a b. createdAt b \<le> createdAt a) (array_sort compareCreated xs)"
proof (induction xs)
  case Nil
  then show ?case by (simp add: array_sort_def)
next
  case (Cons x xs)
  then have "sorted_wrt (\<lambda>a b. createdAt b \<le> createdAt a) (array_sort compareCreated xs)"
    by simp
  moreover have "\<forall>y \<in> set (array_sort compareCreated xs). hasCreatedAt y"
    using Cons.prems by (simp add: set_array_sort)
  ultimately have "sorted_wrt (\<lambda>a b. createdAt b \<le> createdAt a)
      (insert_sorted compareCreated x (array_sort compareCreated xs))"
    using Cons.prems by (intro newest_first_insert) simp_all
  then show ?case by (simp add: array_sort_def)
qed

lemma endsWith_iff_append: "endsWith s t \<longleftrightarrow> (\<exists>p. s = p @ t)"
proof
  assume "endsWith s t"
  then have "drop (length s - length t) s = t"
    by (simp add: endsWith_def)
  then have "s = take (length s - length t) s @ t"
    by (metis append_take_drop_id)
  then show "\<exists>p. s = p @ t" ..
next
  assume "\<exists>p. s = p @ t"
  then show "endsWith s t"
    by (auto simp: endsWith_def)
qed

lemma endsWith_json: "endsWith file ''.json'' \<longleftrightarrow> (\<exists>sid. file = getSessionPath sid)"
  by (simp add: endsWith_iff_append getSessionPath_def)

lemma ownerFiles_paths:
  assumes "distinct (map fst fs)"
  shows "fst ` set (filter (\<lambda>(file, session). endsWith file ''.json''
                               \<and> session ''userId'' = Some (JStr owner)) fs)
         = getSessionPath ` {sid. \<exists>s. map_of fs (getSessionPath sid) = Some s
                                     \<and> s ''userId'' = Some (JStr owner)}"
    (is "?L = ?R")
proof
  show "?L \<subseteq> ?R"
  proof
    fix fname assume "fname \<in> ?L"
    then obtain s where mem: "(fname, s) \<in> set fs" and js: "endsWith fname ''.json''"
      and own: "s ''userId'' = Some (JStr owner)"
      by auto
    from js obtain sid where sid: "fname = getSessionPath sid"
      by (auto simp: endsWith_json)
    from assms mem have "map_of fs fname = Some s"
      by simp
    with sid own show "fname \<in> ?R" by auto
  qed
next
  show "?R \<subseteq> ?L"
  proof
    fix fname assume "fname \<in> ?R"
    then obtain sid s where sid: "fname = getSessionPath sid"
      and look: "map_of fs (getSessionPath sid) = Some s"
      and own: "s ''userId'' = Some (JStr owner)"
      by auto
    from look have "(getSessionPath sid, s) \<in> set fs"
      by (rule map_of_SomeD)
    moreover have "endsWith (getSessionPath sid) ''.json''"
      by (auto simp: endsWith_json)
    ultimately have "(fname, s) \<in> set (filter (\<lambda>(file, session). endsWith file ''.json''
                               \<and> session ''userId'' = Some (JStr owner)) fs)"
      using own sid by simp
    then have "fst (fname, s) \<in> ?L"
      by (rule imageI)
    then show "fname \<in> ?L"
      by simp
  qed
qed

text \<open>
  Claim C7. In a sessions directory (no two files of one name), \<^verbatim>\<open>getUserSessions\<close>
  returns exactly the stored sessions of the owner: a record is returned if and only if it
  is the stored record of some session id and its \<^verbatim>\<open>userId\<close> is the owner, and there is
  one entry per such session id, so no session of another owner appears. When every one
  of these sessions carries a \<^verbatim>\<open>createdAt\<close> timestamp, as every created session does,
  the result is ordered newest first.
\<close>

theorem getUserSessions_owner_newest_first:
  assumes "distinct (map fst (files w))"
  shows "(\<forall>s. s \<in> set (getUserSessions owner w) \<longleftrightarrow>
            (\<exists>sid. getSession sid w = Some s) \<and> s ''userId'' = Some (JStr owner))
       \<and> length (getUserSessions owner w) =
            card {sid. \<exists>s. getSession sid w = Some s \<and> s ''userId'' = Some (JStr owner)}
       \<and> ((\<forall>sid s. getSession sid w = Some s \<and> s ''userId'' = Some (JStr owner)
                    \<longrightarrow> hasCreatedAt s) \<longrightarrow>
           sorted_wrt (\<lambda>a b. createdAt b \<le> createdAt a) (getUserSessions owner w))"
proof -
  define own where "own = filter (\<lambda>(file, session). endsWith file ''.json''
                               \<and> session ''userId'' = Some (JStr owner)) (files w)"
  have result: "getUserSessions owner w = array_sort compareCreated (map snd own)"
    by (simp add: getUserSessions_def collectSessions_filter own_def)
  have members: "s \<in> set (map snd own) \<longleftrightarrow>
      (\<exists>sid. getSession sid w = Some s) \<and> s ''userId'' = Some (JStr owner)" for s
  proof
    assume "s \<in> set (map snd own)"
    then obtain fname where mem: "(fname, s) \<in> set (files w)" and js: "endsWith fname ''.json''"
      and ow: "s ''userId'' = Some (JStr owner)"
      by (auto simp: own_def)
    from js obtain sid where "fname = getSessionPath sid"
      by (auto simp: endsWith_json)
    moreover from assms mem have "map_of (files w) fname = Some s" by simp
    ultimately have "getSession sid w = Some s"
      by (simp add: getSession_def)
    with ow show "(\<exists>sid. getSession sid w = Some s) \<and> s ''userId'' = Some (JStr owner)"
      by blast
  next
    assume "(\<exists>sid. getSession sid w = Some s) \<and> s ''userId'' = Some (JStr owner)"
    then obtain sid where look: "map_of (files w) (getSessionPath sid) = Some s"
      and ow: "s ''userId'' = Some (JStr owner)"
      by (auto simp: getSession_def)
    from look have "(getSessionPath sid, s) \<in> set (files w)" by (rule map_of_SomeD)
    moreover have "endsWith (getSessionPath sid) ''.json''" by (auto simp: endsWith_json)
    ultimately have "(getSessionPath sid, s) \<in> set own"
      using ow by (simp add: own_def)
    then have "snd (getSessionPath sid, s) \<in> snd ` set own"
      by (rule imageI)
    then show "s \<in> set (map snd own)"
      by simp
  qed
  have exact: "\<forall>s. s \<in> set (getUserSessions owner w) \<longleftrightarrow>
      (\<exists>sid. getSession sid w = Some s) \<and> s ''userId'' = Some (JStr owner)"
    using members by (simp only: result set_array_sort) blast
  have dist: "distinct (map fst own)"
    using assms by (simp add: own_def distinct_map_filter)
  have "length (getUserSessions owner w) = length (map fst own)"
    using arg_cong [OF mset_array_sort [of compareCreated "map snd own"], of size]
    by (simp add: result)
  also have "\<dots> = card (set (map fst own))"
    using distinct_card [OF dist] by simp
  also have "set (map fst own) = getSessionPath `
      {sid. \<exists>s. getSession sid w = Some s \<and> s ''userId'' = Some (JStr owner)}"
    using ownerFiles_paths [OF assms, of owner] by (simp add: own_def getSession_def)
  also have "card \<dots> = card {sid. \<exists>s. getSession sid w = Some s \<and> s ''userId'' = Some (JStr owner)}"
    by (rule card_image) (simp add: inj_on_def getSessionPath_def)
  finally have count: "length (getUserSessions owner w) =
      card {sid. \<exists>s. getSession sid w = Some s \<and> s ''userId'' = Some (JStr owner)}" .
  have order: "sorted_wrt (\<lambda>a b. createdAt b \<le> createdAt a) (getUserSessions owner w)"
    if "\<forall>sid s. getSession sid w = Some s \<and> s ''userId'' = Some (JStr owner) \<longrightarrow> hasCreatedAt s"
  proof -
    from that members have "\<forall>s \<in> set (map snd own). hasCreatedAt s" by blast
    then show ?thesis
      unfolding result by (rule newest_first_array_sort)
  qed
  from exact count order show ?thesis by blast
qed

theorem getUserSessions_owner_newest_first_witness:
  "getUserSessions ''u1'' listing_world = [fresh_session ''c'' ''u1'' 300, fresh_session ''a'' ''u1'' 100]
   \<and> length (getUserSessions ''u1'' listing_world) =
        card {sid. \<exists>s. getSession sid listing_world = Some s \<and> s ''userId'' = Some (JStr ''u1'')}
   \<and> sorted_wrt (\<lambda>a b. createdAt b \<le> createdAt a) (getUserSessions ''u1'' listing_world)"
proof -
  have names: "distinct (map fst (files listing_world))"
    by (simp add: listing_world_def)
  have dated: "\<forall>sid s. getSession sid listing_world = Some s \<and> s ''userId'' = Some (JStr ''u1'')
      \<longrightarrow> hasCreatedAt s"
    by (auto simp: listing_world_def getSession_def hasCreatedAt_def fresh_session_def
        split: if_splits)
  have listed: "getUserSessions ''u1'' listing_world =
      [fresh_session ''c'' ''u1'' 300, fresh_session ''a'' ''u1'' 100]"
    by (simp add: getUserSessions_def listing_world_def endsWith_def array_sort_def
        fresh_session_def compareCreated_def dateValue_def)
  from getUserSessions_owner_newest_first [OF names, of "''u1''"] dated listed
  show ?thesis by simp
qed

text \<open>
  The four ways a run on a session with an audio file can go, each with its result, the
  record it leaves in the store and the events it adds to the journal.
\<close>

lemmas run_simps =
  processAudioPipeline_def catch_io_def bind_io_def throw_io_def return_io_def call_def
  updateSession_found getSession_stored

lemma run_transcription_fails:
  assumes "getSession sid w = Some s" and "lastAudioFile s = Some af"
    and "transcribeAudio A (path af) = Inl e"
  shows "fst (processAudioPipeline A sid w) = Inl e"
    and "getSession sid (snd (processAudioPipeline A sid w)) =
          Some (s ++ [''status'' \<mapsto> JStr ''error'', ''error'' \<mapsto> JStr e,
                      ''updatedAt'' \<mapsto> JTime (clock w (ticks w + 1))])"
    and "journal (snd (processAudioPipeline A sid w)) = journal w @
          [Updated sid [''status'' \<mapsto> JStr ''transcribing''], Called Transcriber,
           Updated sid [''status'' \<mapsto> JStr ''error'', ''error'' \<mapsto> JStr e]]"
  using assms by (simp_all add: run_simps)

lemma run_reframing_fails:
  assumes "getSession sid w = Some s" and "lastAudioFile s = Some af"
    and "transcribeAudio A (path af) = Inr t" and "reframeText A t = Inl e"
  shows "fst (processAudioPipeline A sid w) = Inl e"
    and "getSession sid (snd (processAudioPipeline A sid w)) =
          Some (s ++ [''transcript'' \<mapsto> JStr t, ''status'' \<mapsto> JStr ''error'', ''error'' \<mapsto> JStr e,
                      ''updatedAt'' \<mapsto> JTime (clock w (ticks w + 3))])"
    and "journal (snd (processAudioPipeline A sid w)) = journal w @
          [Updated sid [''status'' \<mapsto> JStr ''transcribing''], Called Transcriber,
           Updated sid [''transcript'' \<mapsto> JStr t, ''status'' \<mapsto> JStr ''transcribed''],
           Updated sid [''status'' \<mapsto> JStr ''reframing''], Called Reframer,
           Updated sid [''status'' \<mapsto> JStr ''error'', ''error'' \<mapsto> JStr e]]"
  using assms by (simp_all add: run_simps) (simp add: fun_eq_iff map_add_def numeral_eq_Suc)

lemma run_synthesis_fails:
  assumes "getSession sid w = Some s" and "lastAudioFile s = Some af"
    and "transcribeAudio A (path af) = Inr t" and "reframeText A t = Inr r"
    and "generateAudio A r sid (s ''userId'') = Inl e"
  shows "fst (processAudioPipeline A sid w) = Inr (t, r, JNull)"
    and "getSession sid (snd (processAudioPipeline A sid w)) =
          Some (s ++ [''transcript'' \<mapsto> JStr t, ''reframedText'' \<mapsto> JStr r,
                      ''error'' \<mapsto> JStr (''TTS unavailable: '' @ e @ ''. Transcript and reframe are ready.''),
                      ''generatedAudioUrl'' \<mapsto> JNull, ''status'' \<mapsto> JStr ''completed'',
                      ''updatedAt'' \<mapsto> JTime (clock w (ticks w + 6))])"
    and "journal (snd (processAudioPipeline A sid w)) = journal w @
          [Updated sid [''status'' \<mapsto> JStr ''transcribing''], Called Transcriber,
           Updated sid [''transcript'' \<mapsto> JStr t, ''status'' \<mapsto> JStr ''transcribed''],
           Updated sid [''status'' \<mapsto> JStr ''reframing''], Called Reframer,
           Updated sid [''reframedText'' \<mapsto> JStr r, ''status'' \<mapsto> JStr ''reframed''],
           Updated sid [''status'' \<mapsto> JStr ''generating_audio''], Called Synthesizer,
           Updated sid [''error'' \<mapsto> JStr (''TTS unavailable: '' @ e @ ''. Transcript and reframe are ready.'')],
           Updated sid [''generatedAudioUrl'' \<mapsto> JNull, ''status'' \<mapsto> JStr ''completed'']]"
  using assms by (simp_all add: run_simps) (simp add: fun_eq_iff map_add_def numeral_eq_Suc)

lemma run_completes:
  assumes "getSession sid w = Some s" and "lastAudioFile s = Some af"
    and "transcribeAudio A (path af) = Inr t" and "reframeText A t = Inr r"
    and "generateAudio A r sid (s ''userId'') = Inr f"
  shows "fst (processAudioPipeline A sid w) = Inr (t, r, JStr (''/uploads/'' @ f))"
    and "getSession sid (snd (processAudioPipeline A sid w)) =
          Some (s ++ [''transcript'' \<mapsto> JStr t, ''reframedText'' \<mapsto> JStr r,
                      ''generatedAudioUrl'' \<mapsto> JStr (''/uploads/'' @ f), ''status'' \<mapsto> JStr ''completed'',
                      ''updatedAt'' \<mapsto> JTime (clock w (ticks w + 5))])"
    and "journal (snd (processAudioPipeline A sid w)) = journal w @
          [Updated sid [''status'' \<mapsto> JStr ''transcribing''], Called Transcriber,
           Updated sid [''transcript'' \<mapsto> JStr t, ''status'' \<mapsto> JStr ''transcribed''],
           Updated sid [''status'' \<mapsto> JStr ''reframing''], Called Reframer,
           Updated sid [''reframedText'' \<mapsto> JStr r, ''status'' \<mapsto> JStr ''reframed''],
           Updated sid [''status'' \<mapsto> JStr ''generating_audio''], Called Synthesizer,
           Updated sid [''generatedAudioUrl'' \<mapsto> JStr (''/uploads/'' @ f), ''status'' \<mapsto> JStr ''completed'']]"
  using assms by (simp_all add: run_simps) (simp add: fun_eq_iff map_add_def numeral_eq_Suc)

section \<open>Properties of the pipeline orchestrator\<close>

text \<open>
  Claim C1. When transcription and reframing succeed and the synthesizer fails, the run
  resolves (it does not reject), the session ends with status \<^verbatim>\<open>completed\<close>, with
  \<^verbatim>\<open>generatedAudioUrl\<close> \<^verbatim>\<open>null\<close> and with \<^verbatim>\<open>error\<close> holding the synthesis message
  (\<^verbatim>\<open>TTS unavailable: ...\<close>); the transcript and the reframed text persisted by the first
  two stages are still there, and status \<^verbatim>\<open>error\<close> is never written.
\<close>

theorem synthesis_failure_still_completes:
  assumes "getSession sid w = Some s" and "lastAudioFile s = Some af"
    and "transcribeAudio A (path af) = Inr t" and "reframeText A t = Inr r"
    and "generateAudio A r sid (s ''userId'') = Inl e"
  shows "\<exists>final.
           fst (processAudioPipeline A sid w) = Inr (t, r, JNull)
         \<and> getSession sid (snd (processAudioPipeline A sid w)) = Some final
         \<and> final ''status'' = Some (JStr ''completed'')
         \<and> final ''generatedAudioUrl'' = Some JNull
         \<and> final ''error'' =
              Some (JStr (''TTS unavailable: '' @ e @ ''. Transcript and reframe are ready.''))
         \<and> final ''transcript'' = Some (JStr t)
         \<and> final ''reframedText'' = Some (JStr r)
         \<and> ''error'' \<notin> set (statusWrites (marks
               (runEvents w (snd (processAudioPipeline A sid w)))))"
  using run_synthesis_fails [OF assms]
  by (simp add: runEvents_def)

theorem synthesis_failure_still_completes_witness:
  "fst (processAudioPipeline no_voice_adapters ''s1'' example_world) = Inr (''hello'', ''HELLO'', JNull)
   \<and> the (getSession ''s1'' (snd (processAudioPipeline no_voice_adapters ''s1'' example_world)))
        ''status'' = Some (JStr ''completed'')
   \<and> the (getSession ''s1'' (snd (processAudioPipeline no_voice_adapters ''s1'' example_world)))
        ''error'' = Some (JStr
          ''TTS unavailable: ElevenLabs API key not configured. Transcript and reframe are ready.'')"
proof -
  have found: "getSession ''s1'' example_world = Some example_session"
    by (simp add: getSession_def getSessionPath_def example_world_def)
  have audio: "lastAudioFile example_session = Some example_file"
    by (simp add: lastAudioFile_def example_session_def)
  have stt: "transcribeAudio no_voice_adapters (path example_file) = Inr ''hello''"
    and llm: "reframeText no_voice_adapters ''hello'' = Inr ''HELLO''"
    and tts: "generateAudio no_voice_adapters ''HELLO'' ''s1'' (example_session ''userId'')
                = Inl ''ElevenLabs API key not configured''"
    by (simp_all add: no_voice_adapters_def)
  from synthesis_failure_still_completes [OF found audio stt llm tts]
  show ?thesis by auto
qed

text \<open>
  Claim C2. When the transcriber fails, the run rejects with the failure's message, the
  session ends with status \<^verbatim>\<open>error\<close> and \<^verbatim>\<open>error\<close> set to that message,
  \<^verbatim>\<open>transcript\<close> and \<^verbatim>\<open>reframedText\<close> are what they were before the run (unset when
  they were unset), and neither the reframer nor the synthesizer is called.
\<close>

theorem transcription_failure_aborts:
  assumes "getSession sid w = Some s" and "lastAudioFile s = Some af"
    and "transcribeAudio A (path af) = Inl e"
  shows "\<exists>final.
           fst (processAudioPipeline A sid w) = Inl e
         \<and> getSession sid (snd (processAudioPipeline A sid w)) = Some final
         \<and> final ''status'' = Some (JStr ''error'')
         \<and> final ''error'' = Some (JStr e)
         \<and> final ''transcript'' = s ''transcript''
         \<and> final ''reframedText'' = s ''reframedText''
         \<and> Called Reframer \<notin> set (runEvents w (snd (processAudioPipeline A sid w)))
         \<and> Called Synthesizer \<notin> set (runEvents w (snd (processAudioPipeline A sid w)))"
  using run_transcription_fails [OF assms]
  by (simp add: runEvents_def map_add_def)

theorem transcription_failure_aborts_witness:
  "fst (processAudioPipeline no_stt_adapters ''s1'' example_world)
     = Inl ''Transcription failed: Rate limit exceeded. Please try again in a few minutes.''
   \<and> the (getSession ''s1'' (snd (processAudioPipeline no_stt_adapters ''s1'' example_world)))
        ''status'' = Some (JStr ''error'')
   \<and> the (getSession ''s1'' (snd (processAudioPipeline no_stt_adapters ''s1'' example_world)))
        ''transcript'' = Some JNull
   \<and> the (getSession ''s1'' (snd (processAudioPipeline no_stt_adapters ''s1'' example_world)))
        ''reframedText'' = Some JNull"
proof -
  have found: "getSession ''s1'' example_world = Some example_session"
    by (simp add: getSession_def getSessionPath_def example_world_def)
  have audio: "lastAudioFile example_session = Some example_file"
    by (simp add: lastAudioFile_def example_session_def)
  have stt: "transcribeAudio no_stt_adapters (path example_file)
      = Inl ''Transcription failed: Rate limit exceeded. Please try again in a few minutes.''"
    by (simp add: no_stt_adapters_def)
  have unset: "example_session ''transcript'' = Some JNull"
    "example_session ''reframedText'' = Some JNull"
    by (simp_all add: example_session_def)
  from transcription_failure_aborts [OF found audio stt] unset
  show ?thesis by auto
qed

text \<open>
  Claim C9. When all three stages succeed, the run ends with status \<^verbatim>\<open>completed\<close> and
  the \<^verbatim>\<open>error\<close> field is what it was before the run, so a non-null error of an earlier
  run stays. No update of the run carries an \<^verbatim>\<open>error\<close> field, the last update carries
  \<^verbatim>\<open>generatedAudioUrl\<close> and \<^verbatim>\<open>status\<close> only, the transcript and the reframed text
  written by the run are in the final record, and every field the run does not write is
  unchanged.
\<close>

theorem successful_run_keeps_error:
  assumes "getSession sid w = Some s" and "lastAudioFile s = Some af"
    and "transcribeAudio A (path af) = Inr t" and "reframeText A t = Inr r"
    and "generateAudio A r sid (s ''userId'') = Inr f"
  shows "\<exists>final.
           getSession sid (snd (processAudioPipeline A sid w)) = Some final
         \<and> final ''status'' = Some (JStr ''completed'')
         \<and> final ''error'' = s ''error''
         \<and> final ''transcript'' = Some (JStr t)
         \<and> final ''reframedText'' = Some (JStr r)
         \<and> (\<forall>field. field \<notin> {''transcript'', ''reframedText'', ''generatedAudioUrl'',
                               ''status'', ''updatedAt''} \<longrightarrow> final field = s field)
         \<and> (\<forall>u \<in> set (updatesOf (runEvents w (snd (processAudioPipeline A sid w)))).
               ''error'' \<notin> dom u)
         \<and> dom (last (updatesOf (runEvents w (snd (processAudioPipeline A sid w)))))
               = {''generatedAudioUrl'', ''status''}"
proof -
  let ?w' = "snd (processAudioPipeline A sid w)"
  define final where
    "final = s ++ [''transcript'' \<mapsto> JStr t, ''reframedText'' \<mapsto> JStr r,
                   ''generatedAudioUrl'' \<mapsto> JStr (''/uploads/'' @ f),
                   ''status'' \<mapsto> JStr ''completed'',
                   ''updatedAt'' \<mapsto> JTime (clock w (ticks w + 5))]"
  have stored: "getSession sid ?w' = Some final"
    unfolding final_def by (rule run_completes(2) [OF assms])
  have events: "updatesOf (runEvents w ?w') =
      [[''status'' \<mapsto> JStr ''transcribing''],
       [''transcript'' \<mapsto> JStr t, ''status'' \<mapsto> JStr ''transcribed''],
       [''status'' \<mapsto> JStr ''reframing''],
       [''reframedText'' \<mapsto> JStr r, ''status'' \<mapsto> JStr ''reframed''],
       [''status'' \<mapsto> JStr ''generating_audio''],
       [''generatedAudioUrl'' \<mapsto> JStr (''/uploads/'' @ f), ''status'' \<mapsto> JStr ''completed'']]"
    by (simp add: runEvents_def run_completes(3) [OF assms])
  have fields: "final ''status'' = Some (JStr ''completed'')" "final ''error'' = s ''error''"
    "final ''transcript'' = Some (JStr t)" "final ''reframedText'' = Some (JStr r)"
    by (simp_all add: final_def map_add_def)
  have frame: "\<forall>field. field \<notin> {''transcript'', ''reframedText'', ''generatedAudioUrl'',
                               ''status'', ''updatedAt''} \<longrightarrow> final field = s field"
    by (simp add: final_def map_add_def)
  have no_error: "\<forall>u \<in> set (updatesOf (runEvents w ?w')). ''error'' \<notin> dom u"
    unfolding events by simp
  have last_update: "dom (last (updatesOf (runEvents w ?w'))) = {''generatedAudioUrl'', ''status''}"
    unfolding events by (simp add: insert_commute)
  show ?thesis
  proof (intro exI conjI)
    show "getSession sid ?w' = Some final" by (fact stored)
  qed (fact fields frame no_error last_update)+
qed

theorem successful_run_keeps_error_witness:
  "the (getSession ''s1'' (snd (processAudioPipeline stub_adapters ''s1'' failed_before_world)))
        ''status'' = Some (JStr ''completed'')
   \<and> the (getSession ''s1'' (snd (processAudioPipeline stub_adapters ''s1'' failed_before_world)))
        ''error'' = Some (JStr ''Reframing failed: overloaded'')"
proof -
  let ?s = "example_session(''error'' \<mapsto> JStr ''Reframing failed: overloaded'')"
  have found: "getSession ''s1'' failed_before_world = Some ?s"
    by (simp add: getSession_def getSessionPath_def failed_before_world_def)
  have audio: "lastAudioFile ?s = Some example_file"
    by (simp add: lastAudioFile_def example_session_def)
  have stt: "transcribeAudio stub_adapters (path example_file) = Inr ''hello''"
    and llm: "reframeText stub_adapters ''hello'' = Inr ''HELLO''"
    and tts: "generateAudio stub_adapters ''HELLO'' ''s1'' (?s ''userId'') = Inr ''a1''"
    by (simp_all add: stub_adapters_def)
  from successful_run_keeps_error [OF found audio stt llm tts]
  show ?thesis by (elim exE conjE) simp
qed

text \<open>What an observer sees of a run on a session with an audio file, by outcome.\<close>

lemma run_marks:
  assumes "getSession sid w = Some s" and "lastAudioFile s = Some af"
  shows "marks (runEvents w (snd (processAudioPipeline A sid w))) =
     [Wrote ''transcribing'', Invoked Transcriber] @
     (case transcribeAudio A (path af) of
        Inl e \<Rightarrow> [Wrote ''error'']
      | Inr t \<Rightarrow>
         [Wrote ''transcribed'', Wrote ''reframing'', Invoked Reframer] @
         (case reframeText A t of
            Inl e \<Rightarrow> [Wrote ''error'']
          | Inr r \<Rightarrow>
             [Wrote ''reframed'', Wrote ''generating_audio'', Invoked Synthesizer,
              Wrote ''completed'']))"
proof (cases "transcribeAudio A (path af)")
  case (Inl e)
  then show ?thesis
    by (simp add: runEvents_def run_transcription_fails(3) [OF assms Inl])
next
  case stt: (Inr t)
  show ?thesis
  proof (cases "reframeText A t")
    case (Inl e)
    then show ?thesis
      by (simp add: runEvents_def stt run_reframing_fails(3) [OF assms stt Inl])
  next
    case llm: (Inr r)
    show ?thesis
    proof (cases "generateAudio A r sid (s ''userId'')")
      case (Inl e)
      then show ?thesis
        by (simp add: runEvents_def stt llm run_synthesis_fails(3) [OF assms stt llm Inl])
    next
      case (Inr f)
      then show ?thesis
        by (simp add: runEvents_def stt llm run_completes(3) [OF assms stt llm Inr])
    qed
  qed
qed

text \<open>
  Claim C8. In a run on a session with an audio file, whatever the adapters do, the status
  values written are strictly increasing along the order of the state machine
  (\<^verbatim>\<open>transcribing\<close>, \<^verbatim>\<open>transcribed\<close>, \<^verbatim>\<open>reframing\<close>, \<^verbatim>\<open>reframed\<close>,
  \<^verbatim>\<open>generating_audio\<close>, \<^verbatim>\<open>completed\<close>, with \<^verbatim>\<open>error\<close> last), so no status of an
  earlier stage follows one of a later stage; no status is written twice and no adapter
  is called twice. Every adapter call comes right after the write of its stage's entry
  status; when the transcriber or the reframer succeeds, the write of its completion
  status comes right after the call, and once the reframer has succeeded the synthesizer
  is called and \<^verbatim>\<open>completed\<close> is the status written after it, and the last one.
\<close>

theorem status_writes_sequential:
  assumes "getSession sid w = Some s" and "lastAudioFile s = Some af"
  shows "let ms = marks (runEvents w (snd (processAudioPipeline A sid w))) in
       sorted_wrt (<) (map statusRank (statusWrites ms))
     \<and> (\<forall>st \<in> set (statusWrites ms). 0 < statusRank st)
     \<and> distinct ms
     \<and> (\<forall>stage. Invoked stage \<in> set ms \<longrightarrow>
           adjacent (Wrote (entryStatus stage)) (Invoked stage) ms)
     \<and> (\<forall>t. transcribeAudio A (path af) = Inr t \<longrightarrow>
           adjacent (Invoked Transcriber) (Wrote ''transcribed'') ms
         \<and> (\<forall>r. reframeText A t = Inr r \<longrightarrow>
               adjacent (Invoked Reframer) (Wrote ''reframed'') ms
             \<and> adjacent (Invoked Synthesizer) (Wrote ''completed'') ms
             \<and> last ms = Wrote ''completed''))"
proof (cases "transcribeAudio A (path af)")
  case (Inl e)
  have ms: "marks (runEvents w (snd (processAudioPipeline A sid w))) =
      [Wrote ''transcribing'', Invoked Transcriber, Wrote ''error'']"
    by (simp add: run_marks [OF assms] Inl)
  show ?thesis
    unfolding Let_def ms by (simp add: statusRank_def Inl)
next
  case stt: (Inr t)
  show ?thesis
  proof (cases "reframeText A t")
    case (Inl e)
    have ms: "marks (runEvents w (snd (processAudioPipeline A sid w))) =
        [Wrote ''transcribing'', Invoked Transcriber, Wrote ''transcribed'',
         Wrote ''reframing'', Invoked Reframer, Wrote ''error'']"
      by (simp add: run_marks [OF assms] stt Inl)
    show ?thesis
      unfolding Let_def ms by (simp add: statusRank_def stt Inl)
  next
    case llm: (Inr r)
    have ms: "marks (runEvents w (snd (processAudioPipeline A sid w))) =
        [Wrote ''transcribing'', Invoked Transcriber, Wrote ''transcribed'',
         Wrote ''reframing'', Invoked Reframer, Wrote ''reframed'',
         Wrote ''generating_audio'', Invoked Synthesizer, Wrote ''completed'']"
      by (simp add: run_marks [OF assms] stt llm)
    show ?thesis
      unfolding Let_def ms by (simp add: statusRank_def stt llm)
  qed
qed

theorem status_writes_sequential_witness:
  "sorted_wrt (<) (map statusRank (statusWrites (marks
      (runEvents example_world (snd (processAudioPipeline stub_adapters ''s1'' example_world))))))
   \<and> distinct (marks
      (runEvents example_world (snd (processAudioPipeline stub_adapters ''s1'' example_world))))
   \<and> last (marks
      (runEvents example_world (snd (processAudioPipeline stub_adapters ''s1'' example_world))))
       = Wrote ''completed''"
proof -
  have found: "getSession ''s1'' example_world = Some example_session"
    by (simp add: getSession_def getSessionPath_def example_world_def)
  have audio: "lastAudioFile example_session = Some example_file"
    by (simp add: lastAudioFile_def example_session_def)
  have stt: "transcribeAudio stub_adapters (path example_file) = Inr ''hello''"
    and llm: "reframeText stub_adapters ''hello'' = Inr ''HELLO''"
    by (simp_all add: stub_adapters_def)
  from status_writes_sequential [OF found audio, of stub_adapters] stt llm
  show ?thesis by (simp add: Let_def)
qed

text \<open>The two routes on a session of the caller.\<close>

lemma uploadRoute_stores:
  assumes "getSession sid w = Some s" and "s ''userId'' = Some (JStr u)"
  shows "fst (uploadRoute sid u (Some f) w) = 200"
    and "getSession sid (snd (uploadRoute sid u (Some f) w)) =
      Some (s ++ [''audioFiles'' \<mapsto> JFiles
                    ((case s ''audioFiles'' of Some (JFiles fs) \<Rightarrow> fs | _ \<Rightarrow> []) @
                     [\<lparr>filename = file_filename f, originalName = file_originalname f,
                       path = file_path f, fsize = file_size f, mimetype = file_mimetype f,
                       uploadedAt = clock w (ticks w)\<rparr>]),
                  ''status'' \<mapsto> JStr ''audio_uploaded'',
                  ''updatedAt'' \<mapsto> JTime (clock w (Suc (ticks w)))])"
proof -
  have found: "getSession sid (w\<lparr>ticks := Suc (ticks w)\<rparr>) = Some s"
    using assms(1) by (simp add: getSession_def)
  show "fst (uploadRoute sid u (Some f) w) = 200"
    using assms by (simp add: uploadRoute_def newDate_def Let_def updateSession_found [OF found])
  show "getSession sid (snd (uploadRoute sid u (Some f) w)) =
      Some (s ++ [''audioFiles'' \<mapsto> JFiles
                    ((case s ''audioFiles'' of Some (JFiles fs) \<Rightarrow> fs | _ \<Rightarrow> []) @
                     [\<lparr>filename = file_filename f, originalName = file_originalname f,
                       path = file_path f, fsize = file_size f, mimetype = file_mimetype f,
                       uploadedAt = clock w (ticks w)\<rparr>]),
                  ''status'' \<mapsto> JStr ''audio_uploaded'',
                  ''updatedAt'' \<mapsto> JTime (clock w (Suc (ticks w)))])"
    using assms
    by (simp add: uploadRoute_def newDate_def Let_def updateSession_found [OF found]
        getSession_stored)
qed

lemma processRoute_completes:
  assumes found: "getSession sid w = Some s" and owner: "s ''userId'' = Some (JStr u)"
    and audio: "lastAudioFile s = Some af"
    and stt: "transcribeAudio A (path af) = Inr t" and llm: "reframeText A t = Inr r"
    and tts: "generateAudio A r sid (s ''userId'') = Inr f"
  shows "fst (processRoute A sid u w) = 200"
    and "getSession sid (snd (processRoute A sid u w)) =
      Some (s ++ [''transcript'' \<mapsto> JStr t, ''reframedText'' \<mapsto> JStr r,
                  ''generatedAudioUrl'' \<mapsto> JStr (''/uploads/'' @ f),
                  ''status'' \<mapsto> JStr ''completed'',
                  ''updatedAt'' \<mapsto> JTime (clock w (ticks w + 6))])"
proof -
  define s1 where "s1 = (s ++ [''status'' \<mapsto> JStr ''processing''])
                          (''updatedAt'' \<mapsto> JTime (clock w (ticks w)))"
  define w1 where "w1 = snd (updateSession sid [''status'' \<mapsto> JStr ''processing''] w)"
  have upd: "updateSession sid [''status'' \<mapsto> JStr ''processing''] w = (Inr s1, w1)"
    by (simp add: w1_def s1_def updateSession_found [OF found])
  have found1: "getSession sid w1 = Some s1"
    by (simp add: w1_def s1_def updateSession_found [OF found] getSession_stored)
  have audio1: "lastAudioFile s1 = Some af"
    using audio by (simp add: lastAudioFile_def s1_def map_add_def)
  have tts1: "generateAudio A r sid (s1 ''userId'') = Inr f"
    using tts by (simp add: s1_def map_add_def)
  have clock1: "clock w1 = clock w" "ticks w1 = Suc (ticks w)"
    by (simp_all add: w1_def updateSession_found [OF found])
  note run = run_completes [OF found1 audio1 stt llm tts1]
  obtain res w2 where pipe: "processAudioPipeline A sid w1 = (Inr res, w2)"
    using run(1) by (cases "processAudioPipeline A sid w1") auto
  have route: "processRoute A sid u w = (200, w2)"
    using owner audio by (simp add: processRoute_def found upd pipe)
  show "fst (processRoute A sid u w) = 200"
    by (simp add: route)
  have "getSession sid w2 =
      Some (s1 ++ [''transcript'' \<mapsto> JStr t, ''reframedText'' \<mapsto> JStr r,
                   ''generatedAudioUrl'' \<mapsto> JStr (''/uploads/'' @ f),
                   ''status'' \<mapsto> JStr ''completed'',
                   ''updatedAt'' \<mapsto> JTime (clock w1 (ticks w1 + 5))])"
    using run(2) by (simp add: pipe)
  then show "getSession sid (snd (processRoute A sid u w)) =
      Some (s ++ [''transcript'' \<mapsto> JStr t, ''reframedText'' \<mapsto> JStr r,
                  ''generatedAudioUrl'' \<mapsto> JStr (''/uploads/'' @ f),
                  ''status'' \<mapsto> JStr ''completed'',
                  ''updatedAt'' \<mapsto> JTime (clock w (ticks w + 6))])"
    by (simp add: route clock1 s1_def) (simp add: add.commute)
qed

text \<open>
  Creating a session, uploading one file and triggering a run, with adapters that answer
  \<open>t\<close>, \<open>r\<close> and \<open>a\<close> whatever they are given.
\<close>

lemma scenario_run:
  fixes A :: adapters and t r a :: string and w :: world and U :: string and f :: req_file
  assumes stt: "\<And>p. transcribeAudio A p = Inr t" and llm: "\<And>x. reframeText A x = Inr r"
    and tts: "\<And>x y z. generateAudio A x y z = Inr a"
  defines "sid \<equiv> uuids w (drawn w)"
  defines "w1 \<equiv> snd (createSession U w)"
  defines "w2 \<equiv> snd (uploadRoute sid U (Some f) w1)"
  defines "w3 \<equiv> snd (processRoute A sid U w2)"
  shows "\<exists>final. getSession sid w3 = Some final
           \<and> final ''id'' = Some (JStr sid)
           \<and> final ''userId'' = Some (JStr U)
           \<and> final ''status'' = Some (JStr ''completed'')
           \<and> final ''transcript'' = Some (JStr t)
           \<and> final ''reframedText'' = Some (JStr r)
           \<and> final ''generatedAudioUrl'' = Some (JStr (''/uploads/'' @ a))"
    and "fst (uploadRoute sid U (Some f) w1) = 200"
    and "fst (processRoute A sid U w2) = 200"
proof -
  define s1 where "s1 = fresh_session sid U (clock w (ticks w))"
  have found1: "getSession sid w1 = Some s1"
    by (simp add: w1_def s1_def sid_def createSession_result getSession_def update_conv')
  have owner1: "s1 ''userId'' = Some (JStr U)"
    by (simp add: s1_def fresh_session_def)
  define upl where
    "upl = \<lparr>filename = file_filename f, originalName = file_originalname f,
             path = file_path f, fsize = file_size f, mimetype = file_mimetype f,
             uploadedAt = clock w1 (ticks w1)\<rparr>"
  define s2 where
    "s2 = s1 ++ [''audioFiles'' \<mapsto> JFiles [upl], ''status'' \<mapsto> JStr ''audio_uploaded'',
                 ''updatedAt'' \<mapsto> JTime (clock w1 (Suc (ticks w1)))]"
  have files1: "s1 ''audioFiles'' = Some (JFiles [])"
    by (simp add: s1_def fresh_session_def)
  have found2: "getSession sid w2 = Some s2"
    unfolding w2_def uploadRoute_stores(2) [OF found1 owner1]
    by (simp add: s2_def upl_def files1)
  have owner2: "s2 ''userId'' = Some (JStr U)" and id2: "s2 ''id'' = Some (JStr sid)"
    by (simp_all add: s2_def s1_def fresh_session_def map_add_def)
  have audio2: "lastAudioFile s2 = Some upl"
    by (simp add: lastAudioFile_def s2_def map_add_def)
  note completes = processRoute_completes [OF found2 owner2 audio2 stt llm tts]
  show "fst (uploadRoute sid U (Some f) w1) = 200"
    by (rule uploadRoute_stores(1) [OF found1 owner1])
  show "fst (processRoute A sid U w2) = 200"
    by (rule completes(1))
  show "\<exists>final. getSession sid w3 = Some final
           \<and> final ''id'' = Some (JStr sid)
           \<and> final ''userId'' = Some (JStr U)
           \<and> final ''status'' = Some (JStr ''completed'')
           \<and> final ''transcript'' = Some (JStr t)
           \<and> final ''reframedText'' = Some (JStr r)
           \<and> final ''generatedAudioUrl'' = Some (JStr (''/uploads/'' @ a))"
    unfolding w3_def completes(2) using owner2 id2
    by (simp add: map_add_def)
qed

lemma stub_adapters_answers:
  "transcribeAudio stub_adapters p = Inr ''hello''"
  "reframeText stub_adapters x = Inr ''HELLO''"
  "generateAudio stub_adapters x y z = Inr ''a1''"
  by (simp_all add: stub_adapters_def)

text \<open>
  Claim C4, as amended. Create a session for owner \<open>U\<close>, upload one audio file, trigger
  the run with a transcriber stub returning \<^verbatim>\<open>"hello"\<close>, a reframer stub returning
  \<^verbatim>\<open>"HELLO"\<close> and a synthesizer stub returning \<^verbatim>\<open>"a1"\<close>: the session read back at the
  end has status \<^verbatim>\<open>completed\<close>, transcript \<^verbatim>\<open>"hello"\<close>, reframedText \<^verbatim>\<open>"HELLO"\<close> and
  generatedAudioUrl \<^verbatim>\<open>"/uploads/a1"\<close>, the URL the orchestrator builds from the file name
  the synthesizer returns. This holds from any state of the store, for any clock, any
  generated id and any uploaded file.
\<close>

theorem scenario_completed:
  "let sid = uuids w (drawn w);
       w1 = snd (createSession U w);
       w2 = snd (uploadRoute sid U (Some f) w1);
       w3 = snd (processRoute stub_adapters sid U w2)
   in fst (createSession U w) ''id'' = Some (JStr sid)
    \<and> (\<exists>final. getSession sid w3 = Some final
           \<and> final ''userId'' = Some (JStr U)
           \<and> final ''status'' = Some (JStr ''completed'')
           \<and> final ''transcript'' = Some (JStr ''hello'')
           \<and> final ''reframedText'' = Some (JStr ''HELLO'')
           \<and> final ''generatedAudioUrl'' = Some (JStr ''/uploads/a1''))"
proof -
  have "fst (createSession U w) ''id'' = Some (JStr (uuids w (drawn w)))"
    by (simp add: createSession_result fresh_session_def)
  with scenario_run(1) [of stub_adapters "''hello''" "''HELLO''" "''a1''" w U f,
      OF stub_adapters_answers]
  show ?thesis
    unfolding Let_def by auto
qed

theorem scenario_completed_witness:
  "the (getSession ''s2''
     (snd (processRoute stub_adapters ''s2'' ''u1''
        (snd (uploadRoute ''s2'' ''u1'' (Some example_upload)
           (snd (createSession ''u1'' example_world)))))))
     ''status'' = Some (JStr ''completed'')"
  using scenario_completed [of example_world "''u1''" example_upload]
  by (auto simp: Let_def example_world_def)

text \<open>
  Claim C4 as stated fails on the last field: with a synthesizer stub returning
  \<^verbatim>\<open>"a1"\<close> the stored generatedAudioUrl is \<^verbatim>\<open>"/uploads/a1"\<close>, not \<^verbatim>\<open>"a1"\<close>.
\<close>

theorem scenario_url_counterexample:
  "fst (createSession ''u1'' example_world) ''id'' = Some (JStr ''s2'')
   \<and> the (getSession ''s2''
        (snd (processRoute stub_adapters ''s2'' ''u1''
           (snd (uploadRoute ''s2'' ''u1'' (Some example_upload)
              (snd (createSession ''u1'' example_world)))))))
        ''generatedAudioUrl'' = Some (JStr ''/uploads/a1'')
   \<and> the (getSession ''s2''
        (snd (processRoute stub_adapters ''s2'' ''u1''
           (snd (uploadRoute ''s2'' ''u1'' (Some example_upload)
              (snd (createSession ''u1'' example_world)))))))
        ''generatedAudioUrl'' \<noteq> Some (JStr ''a1'')"
proof -
  have sid: "uuids example_world (drawn example_world) = ''s2''"
    by (simp add: example_world_def)
  have "fst (createSession ''u1'' example_world) ''id'' = Some (JStr ''s2'')"
    by (simp add: createSession_result fresh_session_def sid)
  with scenario_run(1) [of stub_adapters "''hello''" "''HELLO''" "''a1''" example_world
      "''u1''" example_upload, OF stub_adapters_answers]
  show ?thesis
    unfolding sid by auto
qed

section \<open>Properties of the retry engine\<close>

text \<open>One pass through the loop body, by the class of the failure.\<close>

lemma whisperAttempts_step:
  assumes "k \<le> 3"
  shows "whisperAttempts body k lastError tr =
     (case body k of
        Resolved d \<Rightarrow> (Inr d, tr @ [Attempt k])
      | Rejected e \<Rightarrow>
         (case classify e of
            RateLimited \<Rightarrow>
              if k < 3
              then whisperAttempts body (Suc k) (Some e)
                     (tr @ [Attempt k, Wait (min (k * 10000) 60000)])
              else (Inl ''Transcription failed: Rate limit exceeded. Please try again in a few minutes.'',
                    tr @ [Attempt k])
          | TransientConnection \<Rightarrow>
              if k < 3
              then whisperAttempts body (Suc k) (Some e) (tr @ [Attempt k, Wait (k * 3000)])
              else (Inl (''Transcription failed after 3 attempts: '' @ errorMessage e),
                    tr @ [Attempt k])
          | OtherFailure \<Rightarrow>
              if k < 3
              then (Inl (''Transcription failed: '' @ errorMessage e), tr @ [Attempt k])
              else (Inl (''Transcription failed after 3 attempts: '' @ errorMessage e),
                    tr @ [Attempt k])))"
  using assms
  by (subst whisperAttempts.simps)
    (simp add: maxRetries_def classify_def split: attempt_result.splits)

lemma transcribeWithWhisper_loop:
  assumes "openaiClient env" and "statSync env audioPath = None"
  shows "transcribeWithWhisper env audioPath = whisperAttempts (tryBody env audioPath) 1 None []"
  using assms by (simp add: transcribeWithWhisper_def)

text \<open>
  Claim C3. With the client configured and the file present, when attempts 1 and 2 are
  rejected with a rate-limit signal (HTTP status 429): if attempt 3 succeeds, its result is
  returned after exactly three attempts and two waits, of 10 s and of 20 s; if attempt 3
  is rate-limited too, the engine fails with the rate-limit message after exactly three
  attempts and the same two waits, with no wait and no attempt after the third.
\<close>

theorem rate_limit_backoff:
  assumes "openaiClient env" and "statSync env audioPath = None"
    and "tryBody env audioPath 1 = Rejected e1" and "isRateLimit e1"
    and "tryBody env audioPath 2 = Rejected e2" and "isRateLimit e2"
  shows "(\<forall>d. tryBody env audioPath 3 = Resolved d \<longrightarrow>
            transcribeWithWhisper env audioPath =
              (Inr d, [Attempt 1, Wait 10000, Attempt 2, Wait 20000, Attempt 3]))
       \<and> (\<forall>e3. tryBody env audioPath 3 = Rejected e3 \<and> isRateLimit e3 \<longrightarrow>
            transcribeWithWhisper env audioPath =
              (Inl ''Transcription failed: Rate limit exceeded. Please try again in a few minutes.'',
               [Attempt 1, Wait 10000, Attempt 2, Wait 20000, Attempt 3]))"
proof -
  have c1: "classify e1 = RateLimited" and c2: "classify e2 = RateLimited"
    using assms by (simp_all add: classify_def)
  show ?thesis
    using assms c1 c2
    by (simp add: transcribeWithWhisper_loop whisperAttempts_step classify_def
        numeral_2_eq_2 numeral_3_eq_3)
qed

theorem rate_limit_backoff_witness:
  "transcribeWithWhisper (whisper_with limited_then_ok) ''memo.m4a'' =
     (Inr ''hello'', [Attempt 1, Wait 10000, Attempt 2, Wait 20000, Attempt 3])
   \<and> transcribeWithWhisper (whisper_with always_limited) ''memo.m4a'' =
     (Inl ''Transcription failed: Rate limit exceeded. Please try again in a few minutes.'',
      [Attempt 1, Wait 10000, Attempt 2, Wait 20000, Attempt 3])"
proof -
  have limited: "isRateLimit rate_limit_error"
    by (simp add: isRateLimit_def statusCode_def or_num_def rate_limit_error_def)
  from rate_limit_backoff [of "whisper_with limited_then_ok" "''memo.m4a''"
      rate_limit_error rate_limit_error]
    rate_limit_backoff [of "whisper_with always_limited" "''memo.m4a''"
      rate_limit_error rate_limit_error]
    limited
  show ?thesis
    by (simp add: whisper_with_def limited_then_ok_def always_limited_def)
qed

lemma adjacent_second: "adjacent a b xs \<Longrightarrow> b \<in> set xs"
  by (induction a b xs rule: adjacent.induct) auto

text \<open>
  Claim C5. A failure is classified as a transient connection error when it is not
  rate-limited and the connection test holds (the rate-limit test comes first). With the
  client configured and the file present: an attempt before the third that fails with a
  transient connection error is followed by a wait of attempt times 3 s and then by the
  next attempt; when all three attempts fail so, the waits are 3 s and 6 s; a third
  attempt failing so ends the run with \<^verbatim>\<open>Transcription failed after 3 attempts:\<close>
  followed by the message of that last error (\<^verbatim>\<open>Unknown error\<close> standing for a missing
  or empty message); and an attempt that fails with an error of neither class is the last
  event of the run, which fails at once.
\<close>

theorem transient_retry_then_exhausted:
  assumes "openaiClient env" and "statSync env audioPath = None"
  shows "let body = tryBody env audioPath;
             res = fst (transcribeWithWhisper env audioPath);
             tr = snd (transcribeWithWhisper env audioPath)
         in (\<forall>k e. k < 3 \<and> Attempt k \<in> set tr \<and> body k = Rejected e
                    \<and> classify e = TransientConnection \<longrightarrow>
               adjacent (Attempt k) (Wait (k * 3000)) tr
             \<and> adjacent (Wait (k * 3000)) (Attempt (Suc k)) tr)
          \<and> ((\<forall>k \<in> {1, 2, 3}. \<exists>e. body k = Rejected e \<and> classify e = TransientConnection) \<longrightarrow>
               tr = [Attempt 1, Wait 3000, Attempt 2, Wait 6000, Attempt 3])
          \<and> (\<forall>e. Attempt 3 \<in> set tr \<and> body 3 = Rejected e \<and> classify e = TransientConnection \<longrightarrow>
               res = Inl (''Transcription failed after 3 attempts: '' @ errorMessage e)
             \<and> last tr = Attempt 3)
          \<and> (\<forall>k e. Attempt k \<in> set tr \<and> body k = Rejected e \<and> classify e = OtherFailure \<longrightarrow>
               res = Inl ((if k = 3 then ''Transcription failed after 3 attempts: ''
                           else ''Transcription failed: '') @ errorMessage e)
             \<and> last tr = Attempt k)
          \<and> (\<forall>e m. message e = Some m \<and> m \<noteq> [] \<longrightarrow> errorMessage e = m)
          \<and> Attempt 1 \<in> set tr
          \<and> set (attemptsMade tr) \<subseteq> {1, 2, 3} \<and> distinct (attemptsMade tr)"
  unfolding Let_def transcribeWithWhisper_loop [OF assms]
  by (auto simp: whisperAttempts_step numeral_2_eq_2 numeral_3_eq_3 errorMessage_def or_str_def
      split: attempt_result.splits failure_class.splits)

theorem transient_retry_then_exhausted_witness:
  "snd (transcribeWithWhisper (whisper_with always_reset) ''memo.m4a'') =
     [Attempt 1, Wait 3000, Attempt 2, Wait 6000, Attempt 3]
   \<and> fst (transcribeWithWhisper (whisper_with always_reset) ''memo.m4a'') =
     Inl ''Transcription failed after 3 attempts: socket hang up''
   \<and> fst (transcribeWithWhisper (whisper_with reset_then_bad) ''memo.m4a'') =
     Inl ''Transcription failed: Request failed with status code 400''
   \<and> last (snd (transcribeWithWhisper (whisper_with reset_then_bad) ''memo.m4a'')) = Attempt 2"
proof -
  have reset: "classify reset_error = TransientConnection"
    by (simp add: classify_def isRateLimit_def statusCode_def or_num_def isConnectionError_def
        errorCode_def or_str_def reset_error_def)
  have bad: "classify bad_request_error = OtherFailure"
    by (simp add: classify_def isRateLimit_def statusCode_def or_num_def isConnectionError_def
        errorCode_def errorMessage_def or_str_def bad_request_error_def)
  have msg: "errorMessage reset_error = ''socket hang up''"
    "errorMessage bad_request_error = ''Request failed with status code 400''"
    by (simp_all add: errorMessage_def or_str_def reset_error_def bad_request_error_def)
  have env: "openaiClient (whisper_with body)"
    "statSync (whisper_with body) ''memo.m4a'' = None"
    "tryBody (whisper_with body) ''memo.m4a'' = body" for body
    by (simp_all add: whisper_with_def)
  note all_reset = transient_retry_then_exhausted [OF env(1,2), of always_reset]
  have trace: "snd (transcribeWithWhisper (whisper_with always_reset) ''memo.m4a'') =
     [Attempt 1, Wait 3000, Attempt 2, Wait 6000, Attempt 3]"
    using all_reset by (simp add: Let_def env(3) always_reset_def reset)
  have failed: "fst (transcribeWithWhisper (whisper_with always_reset) ''memo.m4a'') =
     Inl (''Transcription failed after 3 attempts: '' @ errorMessage reset_error)"
    using all_reset trace by (simp add: Let_def env(3) always_reset_def reset)
  note mixed = transient_retry_then_exhausted [OF env(1,2), of reset_then_bad]
  let ?tr = "snd (transcribeWithWhisper (whisper_with reset_then_bad) ''memo.m4a'')"
  have first: "Attempt 1 \<in> set ?tr"
    using mixed by (simp add: Let_def)
  from mixed have retry:
    "\<forall>k e. k < 3 \<and> Attempt k \<in> set ?tr \<and> reset_then_bad k = Rejected e
            \<and> classify e = TransientConnection \<longrightarrow>
        adjacent (Attempt k) (Wait (k * 3000)) ?tr
      \<and> adjacent (Wait (k * 3000)) (Attempt (Suc k)) ?tr"
    unfolding Let_def env(3) by (elim conjE)
  from mixed have stop:
    "\<forall>k e. Attempt k \<in> set ?tr \<and> reset_then_bad k = Rejected e
            \<and> classify e = OtherFailure \<longrightarrow>
        fst (transcribeWithWhisper (whisper_with reset_then_bad) ''memo.m4a'') =
          Inl ((if k = 3 then ''Transcription failed after 3 attempts: ''
                else ''Transcription failed: '') @ errorMessage e)
      \<and> last ?tr = Attempt k"
    unfolding Let_def env(3) by (elim conjE)
  have "adjacent (Wait (1 * 3000)) (Attempt (Suc 1)) ?tr"
    using retry [THEN spec, THEN spec, of 1 reset_error] first
    by (simp add: reset_then_bad_def reset)
  then have "Attempt (Suc 1) \<in> set ?tr"
    by (rule adjacent_second)
  then have second: "Attempt 2 \<in> set ?tr"
    by (simp add: numeral_2_eq_2)
  have stopped: "fst (transcribeWithWhisper (whisper_with reset_then_bad) ''memo.m4a'') =
       Inl (''Transcription failed: '' @ errorMessage bad_request_error)
     \<and> last ?tr = Attempt 2"
    using stop [THEN spec, THEN spec, of 2 bad_request_error] second
    by (simp add: reset_then_bad_def bad)
  from trace failed stopped msg show ?thesis by simp
qed

end
